theory Spec2Isabelle
  imports Main
begin

section \<open>Python values used by \<open>download_files.py\<close>\<close>

subsection \<open>Naive datetimes\<close>

text \<open>
  A \<open>datetime.datetime\<close> without time zone: the seven fields the constructor stores.
  The constructor checks their ranges (\<open>valid_datetime\<close>); a value outside them cannot
  be built in Python, so theorems that depend on a field's width assume validity.
\<close>

record datetime =
  year :: nat
  month :: nat
  day :: nat
  hour :: nat
  minute :: nat
  second :: nat
  microsecond :: nat




text \<open>
  \<open>a < b\<close> on naive datetimes compares the field tuples
  (year, month, day, hour, minute, second, microsecond) lexicographically.
\<close>

definition datetime_lt :: "datetime \<Rightarrow> datetime \<Rightarrow> bool" where
  "datetime_lt a b =
     (year a < year b \<or> (year a = year b \<and>
     (month a < month b \<or> (month a = month b \<and>
     (day a < day b \<or> (day a = day b \<and>
     (hour a < hour b \<or> (hour a = hour b \<and>
     (minute a < minute b \<or> (minute a = minute b \<and>
     (second a < second b \<or> (second a = second b \<and>
      microsecond a < microsecond b))))))))))))"

text \<open>\<open>dt.datetime(y, m, d)\<close>: the time fields default to zero.\<close>

definition datetime_ymd :: "nat \<Rightarrow> nat \<Rightarrow> nat \<Rightarrow> datetime" where
  "datetime_ymd y m d =
     \<lparr>year = y, month = m, day = d, hour = 0, minute = 0, second = 0, microsecond = 0\<rparr>"

subsection \<open>Decimal formatting\<close>

definition digit_char :: "nat \<Rightarrow> char" where
  "digit_char n = ''0123456789'' ! (n mod 10)"

fun str_nat :: "nat \<Rightarrow> string" where
  "str_nat n =
     (if n < 10 then [digit_char n] else str_nat (n div 10) @ [digit_char (n mod 10)])"

declare str_nat.simps [simp del]

text \<open>Left padding with \<open>0\<close> up to a minimal width; longer text is left as it is.\<close>

definition zfill :: "nat \<Rightarrow> string \<Rightarrow> string" where
  "zfill w s = replicate (w - length s) CHR ''0'' @ s"

text \<open>
  The format specification \<open>0wd\<close> of an f-string (\<open>{obs_band:02d}\<close> is \<open>w = 2\<close>):
  the sign comes first and counts towards the width, the zeros follow it.
\<close>

definition format_0d :: "nat \<Rightarrow> int \<Rightarrow> string" where
  "format_0d w n =
     (if n < 0 then CHR ''-'' # zfill (w - 1) (str_nat (nat (- n)))
      else zfill w (str_nat (nat n)))"

text \<open>
  The five \<open>strftime\<close> directives the script uses, each on its own, as the library
  documents them: \<open>%Y\<close> is the year padded with zeros to four digits, the others are
  padded to two. (Some C libraries leave a year below 1000 unpadded; for the years of the
  two satellites there is no difference.)
\<close>

datatype directive = PctY | Pctm | Pctd | PctH | PctM

fun strftime :: "datetime \<Rightarrow> directive \<Rightarrow> string" where
  "strftime t PctY = zfill 4 (str_nat (year t))"
| "strftime t Pctm = zfill 2 (str_nat (month t))"
| "strftime t Pctd = zfill 2 (str_nat (day t))"
| "strftime t PctH = zfill 2 (str_nat (hour t))"
| "strftime t PctM = zfill 2 (str_nat (minute t))"

subsection \<open>Exceptions, dictionaries and \<open>str.format\<close>\<close>

datatype exn = KeyError string | OSError string | ClientError string

type_synonym dict = "string \<rightharpoonup> string"

text \<open>
  A format string as the sequence of its literal texts and replacement fields.
  \<open>show_pattern\<close> writes it back as Python source text.
\<close>

datatype piece = Lit string | Field string

fun show_pattern :: "piece list \<Rightarrow> string" where
  "show_pattern [] = []"
| "show_pattern (Lit s # ps) = s @ show_pattern ps"
| "show_pattern (Field k # ps) = ''{'' @ k @ ''}'' @ show_pattern ps"

text \<open>
  \<open>pattern.format(**kw)\<close>: fields are replaced from left to right, the first field
  missing from \<open>kw\<close> raises \<open>KeyError\<close>; keys of \<open>kw\<close> that the pattern does not
  mention are ignored.
\<close>

fun format_str :: "piece list \<Rightarrow> dict \<Rightarrow> exn + string" where
  "format_str [] kw = Inr []"
| "format_str (Lit s # ps) kw =
     (case format_str ps kw of Inl e \<Rightarrow> Inl e | Inr r \<Rightarrow> Inr (s @ r))"
| "format_str (Field k # ps) kw =
     (case kw k of
        None \<Rightarrow> Inl (KeyError k)
      | Some v \<Rightarrow> (case format_str ps kw of Inl e \<Rightarrow> Inl e | Inr r \<Rightarrow> Inr (v @ r)))"

section \<open>The Key Builder\<close>

definition EXAMPLE_DATE :: datetime where
  "EXAMPLE_DATE =
     \<lparr>year = 2024, month = 4, day = 2, hour = 16, minute = 0, second = 0, microsecond = 0\<rparr>"

definition HIMAWARI_8_BUCKET :: string where
  "HIMAWARI_8_BUCKET = ''noaa-himawari8''"

definition HIMAWARI_9_BUCKET :: string where
  "HIMAWARI_9_BUCKET = ''noaa-himawari9''"

definition OBJECT_NAME_PATTERN :: "piece list" where
  "OBJECT_NAME_PATTERN =
     [Lit ''AHI-L1b-FLDK/'', Field ''year'', Lit ''/'', Field ''month'', Lit ''/'',
      Field ''day'', Lit ''/'', Field ''hour'', Field ''minute'', Lit ''/'',
      Lit ''HS_'', Field ''satellite_code'', Lit ''_'', Field ''year'', Field ''month'',
      Field ''day'', Lit ''_'', Field ''hour'', Field ''minute'', Lit ''_'',
      Field ''band'', Lit ''_FLDK_'', Field ''resolution'', Lit ''_S0101.DAT.bz2'']"

definition get_object_name_dict :: "datetime \<Rightarrow> int \<Rightarrow> dict" where
  "get_object_name_dict download_datetime obs_band =
     (let resolution = (if obs_band \<le> 4 then ''R10'' else ''R20'') in
      map_of
        [(''year'', strftime download_datetime PctY),
         (''month'', strftime download_datetime Pctm),
         (''day'', strftime download_datetime Pctd),
         (''hour'', strftime download_datetime PctH),
         (''minute'', strftime download_datetime PctM),
         (''satellite_code'',
            if datetime_lt download_datetime (datetime_ymd 2022 10 28) then ''H08'' else ''H09''),
         (''band'', ''B'' @ format_0d 2 obs_band),
         (''resolution'', resolution),
         (''bucket_name'',
            if datetime_lt download_datetime (datetime_ymd 2022 10 28)
            then HIMAWARI_8_BUCKET else HIMAWARI_9_BUCKET)])"

text \<open>The object name as the Fetcher computes it for one band.\<close>

definition object_name_for :: "datetime \<Rightarrow> int \<Rightarrow> exn + string" where
  "object_name_for download_datetime band =
     format_str OBJECT_NAME_PATTERN (get_object_name_dict download_datetime band)"

section \<open>The Fetcher\<close>

subsection \<open>Paths\<close>

text \<open>\<open>os.path.basename\<close>: the text after the last \<open>/\<close> (the whole text if there is none).\<close>

definition basename :: "string \<Rightarrow> string" where
  "basename p = rev (takeWhile (\<lambda>c. c \<noteq> CHR ''/'') (rev p))"

definition DATA_DIR :: string where
  "DATA_DIR = ''data''"

text \<open>
  \<open>directory / name\<close> of \<open>pathlib\<close> for a name without separator, which a basename always
  is: an empty name and \<open>.\<close> give the directory itself.
\<close>

definition path_join :: "string \<Rightarrow> string \<Rightarrow> string" where
  "path_join directory name =
     (if name = [] \<or> name = ''.'' then directory else directory @ ''/'' @ name)"

subsection \<open>The world the script acts on\<close>

text \<open>
  The local files (path to contents), what the operating system lets the process create,
  the lines printed so far, and the calls of \<open>download_fileobj\<close> made so far
  (bucket and key, in order).
\<close>

record world =
  files :: "string \<rightharpoonup> string"
  can_create :: "string \<Rightarrow> bool"
  stdout :: "string list"
  requests :: "(string \<times> string) list"

text \<open>
  A call of \<open>download_fileobj\<close> either returns, having written the object's contents to
  the file object, or raises, having written some part of them (possibly nothing).
  Within one run every key is requested at most once, so a client is a function of the
  bucket and the key.
\<close>

datatype outcome = Done string | Raised exn string

type_synonym s3_client = "string \<Rightarrow> string \<Rightarrow> outcome"

definition exists :: "world \<Rightarrow> string \<Rightarrow> bool" where
  "exists w p = (files w p \<noteq> None)"

text \<open>The three effects of the loop body on the world.\<close>

definition print_line :: "string \<Rightarrow> world \<Rightarrow> world" where
  "print_line s w = w\<lparr>stdout := stdout w @ [s]\<rparr>"

definition write_file :: "string \<Rightarrow> string \<Rightarrow> world \<Rightarrow> world" where
  "write_file p contents w = w\<lparr>files := ((files w)(p \<mapsto> contents))\<rparr>"

definition record_request :: "string \<Rightarrow> string \<Rightarrow> world \<Rightarrow> world" where
  "record_request bucket key w = w\<lparr>requests := requests w @ [(bucket, key)]\<rparr>"

text \<open>
  The body of the loop for one band. A raised exception leaves the function at once;
  the result is the exception (or \<open>None\<close> when the body ran to its end) and the world
  as the body left it. \<open>open(..., 'wb')\<close> creates the file empty before the client
  is called, and the \<open>with\<close> block closes it on both ways out.
\<close>

definition fetch_band :: "datetime \<Rightarrow> s3_client \<Rightarrow> int \<Rightarrow> world \<Rightarrow> exn option \<times> world" where
  "fetch_band download_datetime s3_client band w =
     (let object_name_dict = get_object_name_dict download_datetime band in
      case format_str OBJECT_NAME_PATTERN object_name_dict of
        Inl e \<Rightarrow> (Some e, w)
      | Inr object_name \<Rightarrow>
         (let output_file_name = path_join DATA_DIR (basename object_name) in
          if exists w output_file_name then (None, w)
          else
            let w1 = print_line (''Downloading '' @ object_name) w in
            if \<not> can_create w1 output_file_name then (Some (OSError output_file_name), w1)
            else
              let w2 = write_file output_file_name [] w1 in
              (case object_name_dict ''bucket_name'' of
                 None \<Rightarrow> (Some (KeyError ''bucket_name''), w2)
               | Some bucket \<Rightarrow>
                  (let w3 = record_request bucket object_name w2 in
                   (case s3_client bucket object_name of
                      Done contents \<Rightarrow> (None, write_file output_file_name contents w3)
                    | Raised e part \<Rightarrow> (Some e, write_file output_file_name part w3))))))"

fun fetch_bands :: "datetime \<Rightarrow> s3_client \<Rightarrow> int list \<Rightarrow> world \<Rightarrow> exn option \<times> world" where
  "fetch_bands download_datetime s3_client [] w = (None, w)"
| "fetch_bands download_datetime s3_client (band # rest) w =
     (case fetch_band download_datetime s3_client band w of
        (Some e, w') \<Rightarrow> (Some e, w')
      | (None, w') \<Rightarrow> fetch_bands download_datetime s3_client rest w')"

text \<open>\<open>range(1, 7)\<close> is the bands 1 to 6.\<close>

definition download_files_for_date :: "datetime \<Rightarrow> s3_client \<Rightarrow> world \<Rightarrow> exn option \<times> world" where
  "download_files_for_date download_datetime s3_client w =
     fetch_bands download_datetime s3_client [1..6] w"

section \<open>Notions used to state the properties\<close>

text \<open>Reading decimal text back: the value of a digit, of a digit string, of a signed one.\<close>

definition digit_val :: "char \<Rightarrow> nat" where
  "digit_val c = of_char c - 48"

definition digits :: "char set" where
  "digits = set ''0123456789''"

definition dec_val :: "string \<Rightarrow> nat" where
  "dec_val s = foldl (\<lambda>a c. 10 * a + digit_val c) 0 s"

definition int_val :: "string \<Rightarrow> int" where
  "int_val s =
     (case s of
        [] \<Rightarrow> 0
      | c # r \<Rightarrow> if c = CHR ''-'' then - int (dec_val r) else int (dec_val s))"

text \<open>
  The number \<open>n\<close> written with exactly \<open>w\<close> decimal digits, most significant first:
  digit \<open>i\<close> from the right is \<open>n div 10 ^ i mod 10\<close>.
\<close>

definition zero_padded :: "nat \<Rightarrow> nat \<Rightarrow> string" where
  "zero_padded w n = map (\<lambda>i. digit_char (n div 10 ^ i)) (rev [0..<w])"

text \<open>The satellite epoch of a timestamp and the two codes that go with it.\<close>

definition cutover :: datetime where
  "cutover = datetime_ymd 2022 10 28"

definition satellite_code :: "datetime \<Rightarrow> string" where
  "satellite_code t = (if datetime_lt t cutover then ''H08'' else ''H09'')"

definition resolution_code :: "int \<Rightarrow> string" where
  "resolution_code b = (if b \<le> 4 then ''R10'' else ''R20'')"

text \<open>The timestamp cut to the minute.\<close>

definition minute_of :: "datetime \<Rightarrow> nat \<times> nat \<times> nat \<times> nat \<times> nat" where
  "minute_of t = (year t, month t, day t, hour t, minute t)"

text \<open>The destination path and the request of a band, read off the Key Builder.\<close>

definition key_of :: "datetime \<Rightarrow> int \<Rightarrow> string" where
  "key_of t b = (case object_name_for t b of Inl e \<Rightarrow> [] | Inr k \<Rightarrow> k)"

definition dest_of :: "datetime \<Rightarrow> int \<Rightarrow> string" where
  "dest_of t b = path_join DATA_DIR (basename (key_of t b))"

definition bucket_of :: "datetime \<Rightarrow> int \<Rightarrow> string" where
  "bucket_of t b =
     (case get_object_name_dict t b ''bucket_name'' of None \<Rightarrow> [] | Some v \<Rightarrow> v)"

definition request_of :: "datetime \<Rightarrow> int \<Rightarrow> string \<times> string" where
  "request_of t b = (bucket_of t b, key_of t b)"

text \<open>The last segment of the object key: the name of the local file.\<close>

definition file_name_of :: "datetime \<Rightarrow> int \<Rightarrow> string" where
  "file_name_of t b =
     ''HS_'' @ satellite_code t @ ''_'' @ strftime t PctY @ strftime t Pctm @
     strftime t Pctd @ ''_'' @ strftime t PctH @ strftime t PctM @ ''_'' @
     ''B'' @ format_0d 2 b @ ''_FLDK_'' @ resolution_code b @ ''_S0101.DAT.bz2''"

text \<open>The calls of \<open>download_fileobj\<close> made between two worlds of one run.\<close>

definition new_requests :: "world \<Rightarrow> world \<Rightarrow> (string \<times> string) list" where
  "new_requests w w' = drop (length (requests w)) (requests w')"

text \<open>
  A band does not fail from a world when its file is already there, or when the file
  can be created and the client returns for its request.
\<close>

fun returns :: "outcome \<Rightarrow> bool" where
  "returns (Done contents) = True"
| "returns (Raised e part) = False"

definition band_ok :: "datetime \<Rightarrow> s3_client \<Rightarrow> world \<Rightarrow> int \<Rightarrow> bool" where
  "band_ok t s3_client w b =
     (files w (dest_of t b) \<noteq> None \<or>
      (can_create w (dest_of t b) \<and> returns (s3_client (bucket_of t b) (key_of t b))))"

text \<open>
  Worlds and clients for concrete runs: an empty directory where every file can be
  created, a client that always returns, and one that fails on band 3 of the example
  date after writing two bytes.
\<close>

definition fresh_world :: world where
  "fresh_world = \<lparr>files = Map.empty, can_create = (\<lambda>p. True), stdout = [], requests = []\<rparr>"

definition good_client :: s3_client where
  "good_client bucket key = Done ''contents''"

definition flaky_client :: s3_client where
  "flaky_client bucket key =
     (if key = key_of EXAMPLE_DATE 3 then Raised (ClientError ''connection reset'') ''BZ''
      else Done ''contents'')"

section \<open>Decimal text\<close>

lemma digit_cases:
  assumes "n < (10::nat)"
  obtains "n = 0" | "n = 1" | "n = 2" | "n = 3" | "n = 4" | "n = 5" | "n = 6" | "n = 7"
    | "n = 8" | "n = 9"
  using assms by atomize_elim arith

lemma digit_val_digit_char: "n < 10 \<Longrightarrow> digit_val (digit_char n) = n"
  by (erule digit_cases) (simp_all add: digit_val_def digit_char_def)

lemma digit_char_mod: "digit_char (n mod 10) = digit_char n"
  by (simp add: digit_char_def)

lemma digit_char_in: "digit_char n \<in> digits"
  unfolding digit_char_def digits_def by (rule nth_mem) simp

lemma zero_in_digits: "CHR ''0'' \<in> digits"
  by (simp add: digits_def)

lemma not_digits: "CHR ''_'' \<notin> digits" "CHR ''-'' \<notin> digits" "CHR ''/'' \<notin> digits"
  by (simp_all add: digits_def)

lemma digit_char_zero: "digit_char 0 = CHR ''0''"
  by (simp add: digit_char_def)

lemma dec_val_snoc: "dec_val (s @ [c]) = 10 * dec_val s + digit_val c"
  by (simp add: dec_val_def)

lemma dec_val_single: "dec_val [c] = digit_val c"
  by (simp add: dec_val_def)

lemma dec_val_str_nat: "dec_val (str_nat n) = n"
proof (induction n rule: str_nat.induct)
  case (1 n)
  show ?case
  proof (cases "n < 10")
    case True
    then show ?thesis
      by (simp add: str_nat.simps [of n] dec_val_single digit_val_digit_char)
  next
    case False
    with 1 have "dec_val (str_nat (n div 10)) = n div 10" by simp
    with False show ?thesis
      by (simp add: str_nat.simps [of n] dec_val_snoc digit_val_digit_char)
  qed
qed

lemma dec_val_zeros: "dec_val (replicate k CHR ''0'' @ s) = dec_val s"
proof -
  have "foldl (\<lambda>a c. 10 * a + digit_val c) 0 (replicate k CHR ''0'') = 0"
    by (induction k) (simp_all add: digit_val_def)
  then show ?thesis by (simp add: dec_val_def)
qed

lemma dec_val_zfill: "dec_val (zfill w (str_nat n)) = n"
  by (simp add: zfill_def dec_val_zeros dec_val_str_nat)

lemma str_nat_digits: "set (str_nat n) \<subseteq> digits"
proof (induction n rule: str_nat.induct)
  case (1 n)
  show ?case
  proof (cases "n < 10")
    case True
    then show ?thesis using digit_char_in [of n] by (simp add: str_nat.simps [of n])
  next
    case False
    with 1 have "set (str_nat (n div 10)) \<subseteq> digits" by simp
    with False show ?thesis
      using digit_char_in [of "n mod 10"] by (simp add: str_nat.simps [of n])
  qed
qed

lemma zfill_digits: "set s \<subseteq> digits \<Longrightarrow> set (zfill w s) \<subseteq> digits"
  using zero_in_digits by (auto simp: zfill_def)

lemma str_nat_nonempty: "str_nat n \<noteq> []"
  by (simp add: str_nat.simps [of n])

lemma length_str_nat_small: "n < 10 \<Longrightarrow> length (str_nat n) = 1"
  by (simp add: str_nat.simps [of n])

lemma length_str_nat_big: "10 \<le> n \<Longrightarrow> length (str_nat n) = Suc (length (str_nat (n div 10)))"
  by (simp add: str_nat.simps [of n])

lemma length_str_nat_1: "length (str_nat n) = 1 \<longleftrightarrow> n < 10"
  using length_str_nat_small [of n] length_str_nat_big [of n] str_nat_nonempty [of "n div 10"]
  by (cases "n < 10") auto

lemma length_str_nat_2: "length (str_nat n) \<le> 2 \<longleftrightarrow> n < 100"
proof (cases "n < 10")
  case True
  then show ?thesis by (simp add: length_str_nat_small)
next
  case False
  then have "length (str_nat n) = Suc (length (str_nat (n div 10)))"
    by (simp add: length_str_nat_big)
  moreover have "length (str_nat (n div 10)) \<le> 1 \<longleftrightarrow> length (str_nat (n div 10)) = 1"
    using str_nat_nonempty [of "n div 10"] by (cases "str_nat (n div 10)") auto
  moreover have "n div 10 < 10 \<longleftrightarrow> n < 100" by auto
  ultimately show ?thesis using length_str_nat_1 [of "n div 10"] by simp
qed

lemma length_zfill: "length (zfill w s) = max w (length s)"
  by (simp add: zfill_def)

lemma zero_padded_Suc: "zero_padded (Suc w) n = zero_padded w (n div 10) @ [digit_char n]"
proof -
  have "[0..<Suc w] = 0 # map Suc [0..<w]"
    by (simp add: upt_conv_Cons map_Suc_upt del: upt_Suc)
  then have "rev [0..<Suc w] = map Suc (rev [0..<w]) @ [0]"
    by (simp add: rev_map)
  then show ?thesis
    by (simp add: zero_padded_def o_def div_mult2_eq)
qed

lemma zero_padded_zero: "zero_padded w 0 = replicate w CHR ''0''"
  by (simp add: zero_padded_def digit_char_zero map_replicate_const)


lemma zfill_snoc: "zfill (Suc w) (s @ [c]) = zfill w s @ [c]"
  by (simp add: zfill_def)

lemma zfill_zero_padded: "n < 10 ^ Suc w \<Longrightarrow> zfill (Suc w) (str_nat n) = zero_padded (Suc w) n"
proof (induction w arbitrary: n)
  case 0
  then show ?case
    by (simp add: str_nat.simps [of n] zfill_def zero_padded_def)
next
  case (Suc w)
  show ?case
  proof (cases "n < 10")
    case True
    then have "zfill (Suc (Suc w)) (str_nat n) = replicate (Suc w) CHR ''0'' @ [digit_char n]"
      by (simp add: str_nat.simps [of n] zfill_def)
    moreover from True have "zero_padded (Suc (Suc w)) n = zero_padded (Suc w) 0 @ [digit_char n]"
      by (simp add: zero_padded_Suc [of "Suc w"])
    ultimately show ?thesis by (simp only: zero_padded_zero)
  next
    case False
    from Suc.prems have "n div 10 < 10 ^ Suc w" by (simp add: less_mult_imp_div_less mult.commute)
    then have "zfill (Suc w) (str_nat (n div 10)) = zero_padded (Suc w) (n div 10)"
      by (rule Suc.IH)
    with False show ?thesis
      by (simp add: str_nat.simps [of n] zfill_snoc zero_padded_Suc [of "Suc w"] digit_char_mod)
  qed
qed

lemma zfill2_zero_padded:
  assumes "n < 100"
  shows "zfill 2 (str_nat n) = zero_padded 2 n"
proof -
  have two: "Suc 1 = 2" by simp
  from assms have "n < 10 ^ Suc 1" by simp
  then have "zfill (Suc 1) (str_nat n) = zero_padded (Suc 1) n"
    by (rule zfill_zero_padded)
  then show ?thesis by (simp only: two)
qed


lemma zero_padded2: "zero_padded 2 n = [digit_char (n div 10), digit_char n]"
proof -
  have "zero_padded (Suc (Suc 0)) n = [digit_char (n div 10), digit_char n]"
    by (simp add: zero_padded_def)
  then show ?thesis by (simp only: numeral_2_eq_2)
qed

section \<open>Facts about the Key Builder\<close>

lemma show_OBJECT_NAME_PATTERN:
  "show_pattern OBJECT_NAME_PATTERN =
     ''AHI-L1b-FLDK/{year}/{month}/{day}/{hour}{minute}/HS_{satellite_code}_{year}{month}{day}_{hour}{minute}_{band}_FLDK_{resolution}_S0101.DAT.bz2''"
  by (simp add: OBJECT_NAME_PATTERN_def)

lemma dict_year: "get_object_name_dict t b ''year'' = Some (strftime t PctY)"
  by (simp add: get_object_name_dict_def)

lemma dict_month: "get_object_name_dict t b ''month'' = Some (strftime t Pctm)"
  by (simp add: get_object_name_dict_def)

lemma dict_day: "get_object_name_dict t b ''day'' = Some (strftime t Pctd)"
  by (simp add: get_object_name_dict_def)

lemma dict_hour: "get_object_name_dict t b ''hour'' = Some (strftime t PctH)"
  by (simp add: get_object_name_dict_def)

lemma dict_minute: "get_object_name_dict t b ''minute'' = Some (strftime t PctM)"
  by (simp add: get_object_name_dict_def)

lemma dict_satellite_code:
  "get_object_name_dict t b ''satellite_code'' =
     Some (if datetime_lt t (datetime_ymd 2022 10 28) then ''H08'' else ''H09'')"
  by (simp add: get_object_name_dict_def)

lemma dict_band: "get_object_name_dict t b ''band'' = Some (''B'' @ format_0d 2 b)"
  by (simp add: get_object_name_dict_def)

lemma dict_resolution:
  "get_object_name_dict t b ''resolution'' = Some (if b \<le> 4 then ''R10'' else ''R20'')"
  by (simp add: get_object_name_dict_def)

lemma dict_bucket_name:
  "get_object_name_dict t b ''bucket_name'' =
     Some (if datetime_lt t (datetime_ymd 2022 10 28)
           then HIMAWARI_8_BUCKET else HIMAWARI_9_BUCKET)"
  by (simp add: get_object_name_dict_def)

lemmas dict_fields =
  dict_year dict_month dict_day dict_hour dict_minute dict_satellite_code dict_band
  dict_resolution dict_bucket_name

lemma object_name_for_text:
  "object_name_for t b =
     Inr (''AHI-L1b-FLDK/'' @ strftime t PctY @ ''/'' @ strftime t Pctm @ ''/'' @
          strftime t Pctd @ ''/'' @ strftime t PctH @ strftime t PctM @ ''/'' @
          ''HS_'' @ satellite_code t @ ''_'' @ strftime t PctY @ strftime t Pctm @
          strftime t Pctd @ ''_'' @ strftime t PctH @ strftime t PctM @ ''_'' @
          ''B'' @ format_0d 2 b @ ''_FLDK_'' @ resolution_code b @ ''_S0101.DAT.bz2'')"
  by (simp add: object_name_for_def OBJECT_NAME_PATTERN_def dict_fields satellite_code_def
      cutover_def resolution_code_def)

lemma before_cutover_iff:
  "datetime_lt t cutover \<longleftrightarrow>
     year t < 2022 \<or> (year t = 2022 \<and> (month t < 10 \<or> (month t = 10 \<and> day t < 28)))"
  by (simp add: datetime_lt_def cutover_def datetime_ymd_def)




lemma format_0d_small:
  assumes "0 \<le> b" "b \<le> 99"
  shows "format_0d 2 b = zero_padded 2 (nat b)"
  using assms by (simp add: format_0d_def zfill2_zero_padded)

lemma length_format_0d_2: "length (format_0d 2 b) = 2 \<longleftrightarrow> - 9 \<le> b \<and> b \<le> 99"
proof (cases "b < 0")
  case True
  have "length (zfill 1 (str_nat (nat (- b)))) = length (str_nat (nat (- b)))"
    using str_nat_nonempty [of "nat (- b)"]
    by (cases "str_nat (nat (- b))") (simp_all add: length_zfill)
  moreover have "length (str_nat (nat (- b))) = 1 \<longleftrightarrow> nat (- b) < 10"
    by (rule length_str_nat_1)
  ultimately show ?thesis using True by (auto simp: format_0d_def)
next
  case False
  have "length (zfill 2 (str_nat (nat b))) = 2 \<longleftrightarrow> length (str_nat (nat b)) \<le> 2"
    by (auto simp: length_zfill)
  also have "\<dots> \<longleftrightarrow> nat b < 100" by (rule length_str_nat_2)
  finally show ?thesis using False by (auto simp: format_0d_def)
qed




lemma strftime_digits: "set (strftime t x) \<subseteq> digits"
  by (cases x) (simp_all only: strftime.simps zfill_digits [OF str_nat_digits])

lemma format_0d_chars: "set (format_0d w b) \<subseteq> insert CHR ''-'' digits"
  using zfill_digits [OF str_nat_digits, of w "nat b"]
    zfill_digits [OF str_nat_digits, of "w - 1" "nat (- b)"]
  by (auto simp: format_0d_def)

lemma zfill_nonempty: "s \<noteq> [] \<Longrightarrow> zfill w s \<noteq> []"
  by (simp add: zfill_def)

lemma int_val_format_0d: "int_val (format_0d w b) = b"
proof (cases "b < 0")
  case True
  then show ?thesis by (simp add: format_0d_def int_val_def dec_val_zfill)
next
  case False
  let ?s = "zfill w (str_nat (nat b))"
  have "?s \<noteq> []" by (rule zfill_nonempty) (rule str_nat_nonempty)
  then obtain c r where s: "?s = c # r" by (cases ?s) auto
  have "set ?s \<subseteq> digits" by (rule zfill_digits) (rule str_nat_digits)
  with s have "c \<noteq> CHR ''-''" using not_digits(2) by auto
  with s have "int_val ?s = int (dec_val ?s)" by (simp add: int_val_def)
  with False show ?thesis by (simp add: format_0d_def dec_val_zfill)
qed

lemma format_0d_inj:
  assumes "format_0d w a = format_0d w b"
  shows "a = b"
  using arg_cong [OF assms, of int_val] by (simp only: int_val_format_0d)


lemma underscore_free: "CHR ''_'' \<notin> set (format_0d w b)"
  using format_0d_chars [of w b] not_digits(1) by auto

lemma split_at_first:
  assumes "c \<notin> set xs" "c \<notin> set xs'" "xs @ c # ys = xs' @ c # ys'"
  shows "xs = xs'"
  using assms
proof (induction xs arbitrary: xs')
  case Nil
  then show ?case by (cases xs') auto
next
  case (Cons a as)
  then show ?case by (cases xs') auto
qed

lemma band_tail_inj:
  assumes "format_0d 2 a @ ''_FLDK_'' @ x = format_0d 2 b @ ''_FLDK_'' @ y"
  shows "a = b"
proof -
  note e = assms [unfolded append_Cons append_Nil]
  from split_at_first [OF underscore_free underscore_free e]
  show ?thesis by (rule format_0d_inj)
qed

lemma cut_same: "p @ x = p @ y \<Longrightarrow> x = y"
  by simp





section \<open>Facts about the Fetcher\<close>

lemma object_name_for_Inr: "object_name_for t b = Inr (key_of t b)"
  unfolding key_of_def object_name_for_text by simp

lemma bucket_of_Some: "get_object_name_dict t b ''bucket_name'' = Some (bucket_of t b)"
  by (simp add: bucket_of_def dict_bucket_name)

lemma key_of_text:
  "key_of t b =
     (''AHI-L1b-FLDK/'' @ strftime t PctY @ ''/'' @ strftime t Pctm @ ''/'' @
      strftime t Pctd @ ''/'' @ strftime t PctH @ strftime t PctM) @ ''/'' @ file_name_of t b"
  unfolding key_of_def object_name_for_text file_name_of_def
  by (simp only: sum.case append_assoc)

lemma slash_free_strftime: "CHR ''/'' \<notin> set (strftime t x)"
  using strftime_digits [of t x] not_digits(3) by blast

lemma slash_free_format_0d: "CHR ''/'' \<notin> set (format_0d w b)"
  using format_0d_chars [of w b] not_digits(3) by auto

lemma slash_free_codes:
  "CHR ''/'' \<notin> set (satellite_code t)" "CHR ''/'' \<notin> set (resolution_code b)"
  by (simp_all add: satellite_code_def resolution_code_def)

lemma slash_free: "CHR ''/'' \<notin> set (file_name_of t b)"
  unfolding file_name_of_def
  by (simp add: slash_free_strftime slash_free_format_0d slash_free_codes
      del: strftime.simps)

lemma basename_append:
  assumes "CHR ''/'' \<notin> set n"
  shows "basename (p @ ''/'' @ n) = n"
proof -
  have "takeWhile (\<lambda>c. c \<noteq> CHR ''/'') (rev n @ CHR ''/'' # rev p) = rev n"
    using assms by (subst takeWhile_append2) auto
  then show ?thesis by (simp add: basename_def)
qed

lemma basename_key_of: "basename (key_of t b) = file_name_of t b"
  unfolding key_of_text by (rule basename_append) (rule slash_free)

lemma file_name_of_shape: "file_name_of t b \<noteq> [] \<and> file_name_of t b \<noteq> ''.''"
  by (simp add: file_name_of_def)

lemma dest_of_text: "dest_of t b = DATA_DIR @ ''/'' @ file_name_of t b"
  using file_name_of_shape [of t b]
  by (simp add: dest_of_def basename_key_of path_join_def)

lemma file_name_of_inj:
  assumes "file_name_of t a = file_name_of t b"
  shows "a = b"
proof -
  note e0 = assms [unfolded file_name_of_def]
  note e1 = e0 [THEN cut_same, THEN cut_same, THEN cut_same, THEN cut_same, THEN cut_same,
      THEN cut_same, THEN cut_same, THEN cut_same, THEN cut_same, THEN cut_same, THEN cut_same]
  then show ?thesis by (rule band_tail_inj)
qed

lemma dest_of_inj:
  assumes "dest_of t a = dest_of t b"
  shows "a = b"
  using assms [unfolded dest_of_text, THEN cut_same, THEN cut_same] by (rule file_name_of_inj)

lemma key_of_dest_of: "key_of t a = key_of t b \<Longrightarrow> dest_of t a = dest_of t b"
  by (simp only: dest_of_def)

lemma request_of_inj:
  assumes "request_of t a = request_of t b"
  shows "a = b"
proof -
  from assms have "key_of t a = key_of t b" by (simp only: request_of_def prod.inject)
  then have "dest_of t a = dest_of t b" by (rule key_of_dest_of)
  then show ?thesis by (rule dest_of_inj)
qed

lemma fetch_band_unfold:
  "fetch_band t s3 b w =
     (if files w (dest_of t b) \<noteq> None then (None, w)
      else if \<not> can_create w (dest_of t b)
        then (Some (OSError (dest_of t b)), print_line (''Downloading '' @ key_of t b) w)
      else (case s3 (bucket_of t b) (key_of t b) of
          Done contents \<Rightarrow>
            (None, write_file (dest_of t b) contents
               (record_request (bucket_of t b) (key_of t b)
                  (write_file (dest_of t b) [] (print_line (''Downloading '' @ key_of t b) w))))
        | Raised e part \<Rightarrow>
            (Some e, write_file (dest_of t b) part
               (record_request (bucket_of t b) (key_of t b)
                  (write_file (dest_of t b) [] (print_line (''Downloading '' @ key_of t b) w))))))"
proof -
  have f: "format_str OBJECT_NAME_PATTERN (get_object_name_dict t b) = Inr (key_of t b)"
    using object_name_for_Inr [of t b] by (simp only: object_name_for_def)
  have d: "path_join DATA_DIR (basename (key_of t b)) = dest_of t b"
    by (simp only: dest_of_def)
  have c: "can_create (print_line s w) = can_create w" for s
    by (simp add: print_line_def)
  show ?thesis
    unfolding fetch_band_def Let_def f bucket_of_Some sum.case option.case d exists_def c
    by (rule refl)
qed

lemma key_of_inj:
  assumes "key_of t a = key_of t b"
  shows "a = b"
  using key_of_dest_of [OF assms] by (rule dest_of_inj)

lemma fetch_band_skip: "files w (dest_of t b) \<noteq> None \<Longrightarrow> fetch_band t s3 b w = (None, w)"
  by (simp add: fetch_band_unfold)

lemma fetch_band_can_create: "can_create (snd (fetch_band t s3 b w)) = can_create w"
  by (simp add: fetch_band_unfold write_file_def record_request_def print_line_def
      split: outcome.split)

lemma fetch_band_requests:
  "requests (snd (fetch_band t s3 b w)) =
     requests w @
       (if files w (dest_of t b) = None \<and> can_create w (dest_of t b)
        then [request_of t b] else [])"
  by (simp add: fetch_band_unfold write_file_def record_request_def print_line_def
      request_of_def split: outcome.split)

lemma fetch_band_files_other:
  "q \<noteq> dest_of t b \<Longrightarrow> files (snd (fetch_band t s3 b w)) q = files w q"
  by (simp add: fetch_band_unfold write_file_def record_request_def print_line_def
      split: outcome.split)

lemma fetch_band_files_kept:
  "files w q = Some c \<Longrightarrow> files (snd (fetch_band t s3 b w)) q = Some c"
  by (cases "q = dest_of t b") (simp_all add: fetch_band_skip fetch_band_files_other)

lemma fetch_band_ok: "fst (fetch_band t s3 b w) = None \<longleftrightarrow> band_ok t s3 w b"
  by (cases "s3 (bucket_of t b) (key_of t b)") (simp_all add: fetch_band_unfold band_ok_def)

lemma fetch_band_written:
  "band_ok t s3 w b \<Longrightarrow> files (snd (fetch_band t s3 b w)) (dest_of t b) \<noteq> None"
  by (cases "s3 (bucket_of t b) (key_of t b)")
    (auto simp: fetch_band_unfold band_ok_def write_file_def record_request_def print_line_def)

lemma fetch_band_raised:
  assumes "files w (dest_of t b) = None" "can_create w (dest_of t b)"
    and "s3 (bucket_of t b) (key_of t b) = Raised e part"
  shows "fst (fetch_band t s3 b w) = Some e"
    and "files (snd (fetch_band t s3 b w)) (dest_of t b) = Some part"
  using assms
  by (simp_all add: fetch_band_unfold write_file_def record_request_def print_line_def)

lemma fetch_bands_Cons:
  "fetch_bands t s3 (b # bs) w =
     (if fst (fetch_band t s3 b w) = None then fetch_bands t s3 bs (snd (fetch_band t s3 b w))
      else fetch_band t s3 b w)"
  by (simp split: prod.split option.split)

lemma fetch_bands_Cons_ok:
  "fst (fetch_band t s3 b w) = None \<Longrightarrow>
     fetch_bands t s3 (b # bs) w = fetch_bands t s3 bs (snd (fetch_band t s3 b w))"
  by (simp add: fetch_bands_Cons del: fetch_bands.simps(2))

lemma fetch_bands_Cons_err:
  "fst (fetch_band t s3 b w) \<noteq> None \<Longrightarrow> fetch_bands t s3 (b # bs) w = fetch_band t s3 b w"
  by (simp add: fetch_bands_Cons del: fetch_bands.simps(2) not_None_eq)

lemma fetch_bands_append:
  "fetch_bands t s3 (xs @ ys) w =
     (if fst (fetch_bands t s3 xs w) = None then fetch_bands t s3 ys (snd (fetch_bands t s3 xs w))
      else fetch_bands t s3 xs w)"
proof (induction xs arbitrary: w)
  case Nil
  show ?case by simp
next
  case (Cons a xs)
  show ?case
  proof (cases "fst (fetch_band t s3 a w) = None")
    case True
    with Cons.IH [of "snd (fetch_band t s3 a w)"] show ?thesis
      by (simp add: fetch_bands_Cons del: fetch_bands.simps(2))
  next
    case False
    then show ?thesis
      by (simp add: fetch_bands_Cons_err del: fetch_bands.simps(2) not_None_eq)
  qed
qed

lemma fetch_bands_skip:
  "\<forall>b\<in>set bs. files w (dest_of t b) \<noteq> None \<Longrightarrow> fetch_bands t s3 bs w = (None, w)"
  by (induction bs) (simp_all add: fetch_bands_Cons fetch_band_skip del: fetch_bands.simps(2))

lemma fetch_bands_can_create: "can_create (snd (fetch_bands t s3 bs w)) = can_create w"
  by (induction bs arbitrary: w)
    (simp_all add: fetch_bands_Cons fetch_band_can_create del: fetch_bands.simps(2))

lemma fetch_bands_files_kept:
  "files w q = Some c \<Longrightarrow> files (snd (fetch_bands t s3 bs w)) q = Some c"
  by (induction bs arbitrary: w)
    (simp_all add: fetch_bands_Cons fetch_band_files_kept del: fetch_bands.simps(2))

lemma fetch_bands_files_other:
  "q \<notin> dest_of t ` set bs \<Longrightarrow> files (snd (fetch_bands t s3 bs w)) q = files w q"
  by (induction bs arbitrary: w)
    (simp_all add: fetch_bands_Cons fetch_band_files_other del: fetch_bands.simps(2))

lemma fetch_bands_requests:
  "\<exists>new. requests (snd (fetch_bands t s3 bs w)) = requests w @ new \<and>
     set new \<subseteq> request_of t ` {b \<in> set bs. files w (dest_of t b) = None}"
proof (induction bs arbitrary: w)
  case Nil
  show ?case by simp
next
  case (Cons b bs)
  let ?w1 = "snd (fetch_band t s3 b w)"
  let ?step = "if files w (dest_of t b) = None \<and> can_create w (dest_of t b)
        then [request_of t b] else []"
  have r1: "requests ?w1 = requests w @ ?step" by (rule fetch_band_requests)
  have s1: "set ?step \<subseteq> request_of t ` {b' \<in> set (b # bs). files w (dest_of t b') = None}"
    by auto
  show ?case
  proof (cases "fst (fetch_band t s3 b w) = None")
    case False
    have "snd (fetch_bands t s3 (b # bs) w) = ?w1"
      by (rule arg_cong [OF fetch_bands_Cons_err [OF False]])
    with r1 have "requests (snd (fetch_bands t s3 (b # bs) w)) = requests w @ ?step"
      by (simp only:)
    with s1 show ?thesis by blast
  next
    case True
    then have e: "snd (fetch_bands t s3 (b # bs) w) = snd (fetch_bands t s3 bs ?w1)"
      by (simp add: fetch_bands_Cons del: fetch_bands.simps(2))
    from Cons.IH [of ?w1] obtain new where
      n: "requests (snd (fetch_bands t s3 bs ?w1)) = requests ?w1 @ new"
      and sn: "set new \<subseteq> request_of t ` {b' \<in> set bs. files ?w1 (dest_of t b') = None}"
      by blast
    have "files ?w1 q = None \<Longrightarrow> files w q = None" for q
      using fetch_band_files_kept [of w q _ t s3 b] by (cases "files w q") auto
    with sn have "set new \<subseteq> request_of t ` {b' \<in> set (b # bs). files w (dest_of t b') = None}"
      by auto
    with s1 have "set (?step @ new) \<subseteq>
        request_of t ` {b' \<in> set (b # bs). files w (dest_of t b') = None}"
      by (simp only: set_append Un_subset_iff)
    moreover from e n r1 have "requests (snd (fetch_bands t s3 (b # bs) w)) =
        requests w @ (?step @ new)"
      by simp
    ultimately show ?thesis by blast
  qed
qed

lemma band_ok_step:
  assumes "b' \<noteq> b" "band_ok t s3 w b'"
  shows "band_ok t s3 (snd (fetch_band t s3 b w)) b'"
proof -
  from assms(1) have "dest_of t b' \<noteq> dest_of t b" using dest_of_inj by blast
  then have "files (snd (fetch_band t s3 b w)) (dest_of t b') = files w (dest_of t b')"
    by (rule fetch_band_files_other)
  with assms(2) show ?thesis by (simp add: band_ok_def fetch_band_can_create)
qed

lemma fetch_bands_ok:
  assumes "distinct bs" "\<forall>b\<in>set bs. band_ok t s3 w b"
  shows "fst (fetch_bands t s3 bs w) = None \<and>
    (\<forall>b\<in>set bs. files (snd (fetch_bands t s3 bs w)) (dest_of t b) \<noteq> None)"
  using assms
proof (induction bs arbitrary: w)
  case Nil
  show ?case by simp
next
  case (Cons b bs)
  let ?w1 = "snd (fetch_band t s3 b w)"
  from Cons.prems have ok: "fst (fetch_band t s3 b w) = None"
    by (simp add: fetch_band_ok)
  have "band_ok t s3 ?w1 b'" if "b' \<in> set bs" for b'
  proof -
    from that Cons.prems have "b' \<noteq> b" by auto
    moreover from that Cons.prems have "band_ok t s3 w b'" by simp
    ultimately show ?thesis by (rule band_ok_step)
  qed
  then have "\<forall>b'\<in>set bs. band_ok t s3 ?w1 b'" by blast
  with Cons.prems Cons.IH [of ?w1]
  have ih: "fst (fetch_bands t s3 bs ?w1) = None"
    "\<forall>b'\<in>set bs. files (snd (fetch_bands t s3 bs ?w1)) (dest_of t b') \<noteq> None"
    by simp_all
  from Cons.prems have "files ?w1 (dest_of t b) \<noteq> None"
    by (simp add: fetch_band_written)
  then obtain c where "files ?w1 (dest_of t b) = Some c" by blast
  then have "files (snd (fetch_bands t s3 bs ?w1)) (dest_of t b) = Some c"
    by (rule fetch_bands_files_kept)
  with ok ih show ?case
    by (simp add: fetch_bands_Cons del: fetch_bands.simps(2))
qed

lemma fetch_bands_all_requested:
  assumes "distinct bs"
    and "\<forall>b\<in>set bs. files w (dest_of t b) = None \<and> can_create w (dest_of t b)"
  shows "fst (fetch_bands t s3 bs w) = None \<Longrightarrow>
    requests (snd (fetch_bands t s3 bs w)) = requests w @ map (request_of t) bs"
  using assms
proof (induction bs arbitrary: w)
  case Nil
  show ?case by simp
next
  case (Cons b bs)
  let ?w1 = "snd (fetch_band t s3 b w)"
  from Cons.prems(1) have ok: "fst (fetch_band t s3 b w) = None"
    and rest: "fst (fetch_bands t s3 bs ?w1) = None"
    by (simp_all add: fetch_bands_Cons del: fetch_bands.simps(2) split: if_splits)
  have "files ?w1 (dest_of t b') = None \<and> can_create ?w1 (dest_of t b')" if "b' \<in> set bs" for b'
  proof -
    from that Cons.prems(2) have "b' \<noteq> b" by auto
    then have "dest_of t b' \<noteq> dest_of t b" using dest_of_inj by blast
    then have "files ?w1 (dest_of t b') = files w (dest_of t b')"
      by (rule fetch_band_files_other)
    with that Cons.prems(3) show ?thesis by (simp add: fetch_band_can_create)
  qed
  with Cons.prems(2) rest Cons.IH [of ?w1]
  have "requests (snd (fetch_bands t s3 bs ?w1)) = requests ?w1 @ map (request_of t) bs"
    by simp
  moreover from Cons.prems(3) have "requests ?w1 = requests w @ [request_of t b]"
    by (simp add: fetch_band_requests)
  ultimately show ?case using ok
    by (simp add: fetch_bands_Cons del: fetch_bands.simps(2))
qed

lemma new_requests_append: "requests w' = requests w @ new \<Longrightarrow> new_requests w w' = new"
  by (simp add: new_requests_def)

lemma run_new_requests:
  "set (new_requests w (snd (fetch_bands t s3 bs w))) \<subseteq>
     request_of t ` {b \<in> set bs. files w (dest_of t b) = None}"
proof -
  from fetch_bands_requests [of t s3 bs w] obtain new where
    n: "requests (snd (fetch_bands t s3 bs w)) = requests w @ new"
    and s: "set new \<subseteq> request_of t ` {b \<in> set bs. files w (dest_of t b) = None}"
    by blast
  from n have "new_requests w (snd (fetch_bands t s3 bs w)) = new"
    by (rule new_requests_append)
  with s show ?thesis by (simp only:)
qed

lemma run_skips_existing:
  assumes "files w (dest_of t b) = Some c"
  shows "files (snd (fetch_bands t s3 bs w)) (dest_of t b) = Some c"
    and "request_of t b \<notin> set (new_requests w (snd (fetch_bands t s3 bs w)))"
proof -
  from assms show "files (snd (fetch_bands t s3 bs w)) (dest_of t b) = Some c"
    by (rule fetch_bands_files_kept)
  show "request_of t b \<notin> set (new_requests w (snd (fetch_bands t s3 bs w)))"
  proof
    assume "request_of t b \<in> set (new_requests w (snd (fetch_bands t s3 bs w)))"
    with run_new_requests [of w t s3 bs] obtain b' where
      "request_of t b = request_of t b'" and "files w (dest_of t b') = None"
      by blast
    then have "b = b'" and "files w (dest_of t b') = None"
      by (simp_all only: request_of_inj [of t b b'])
    with assms show False by simp
  qed
qed

lemma run_changes:
  assumes "files (snd (fetch_bands t s3 bs w)) q \<noteq> files w q"
  shows "\<exists>b\<in>set bs. q = dest_of t b \<and> files w q = None"
proof -
  from assms have "q \<in> dest_of t ` set bs"
    using fetch_bands_files_other [of q t bs s3 w] by blast
  moreover have "files w q = None"
  proof (cases "files w q")
    case None
    then show ?thesis .
  next
    case (Some c)
    then have "files (snd (fetch_bands t s3 bs w)) q = Some c"
      by (rule fetch_bands_files_kept)
    with Some assms show ?thesis by simp
  qed
  ultimately show ?thesis by blast
qed

lemma fetch_bands_stop:
  "fst (fetch_bands t s3 xs w) \<noteq> None \<Longrightarrow>
     fetch_bands t s3 (xs @ ys) w = fetch_bands t s3 xs w"
  by (simp add: fetch_bands_append del: not_None_eq)

lemma fetch_bands_snoc:
  "fst (fetch_bands t s3 xs w) = None \<Longrightarrow>
     fetch_bands t s3 (xs @ [b]) w = fetch_band t s3 b (snd (fetch_bands t s3 xs w))"
proof -
  have "fetch_bands t s3 [b] w' = fetch_band t s3 b w'" for w'
  proof (cases "fst (fetch_band t s3 b w') = None")
    case True
    then have "fetch_bands t s3 [b] w' = (None, snd (fetch_band t s3 b w'))"
      by (simp add: fetch_bands_Cons_ok del: fetch_bands.simps(2))
    also from True have "\<dots> = fetch_band t s3 b w'"
      by (simp add: prod_eq_iff)
    finally show ?thesis .
  next
    case False
    then show ?thesis by (rule fetch_bands_Cons_err)
  qed
  then show "fst (fetch_bands t s3 xs w) = None \<Longrightarrow>
     fetch_bands t s3 (xs @ [b]) w = fetch_band t s3 b (snd (fetch_bands t s3 xs w))"
    by (simp add: fetch_bands_append)
qed

text \<open>The run up to a band whose download raises.\<close>

lemma run_until_failure:
  assumes k: "k \<in> {1..6}"
    and ok: "\<forall>b\<in>{1..<k}. band_ok t s3 w b"
    and absent: "files w (dest_of t k) = None"
    and creatable: "can_create w (dest_of t k)"
    and raised: "s3 (bucket_of t k) (key_of t k) = Raised e part"
  shows "download_files_for_date t s3 w = fetch_bands t s3 [1..k] w"
    and "fst (fetch_bands t s3 [1..k] w) = Some e"
    and "files (snd (fetch_bands t s3 [1..k] w)) (dest_of t k) = Some part"
    and "\<exists>pre. new_requests w (snd (fetch_bands t s3 [1..k] w)) = pre @ [request_of t k] \<and>
           request_of t k \<notin> set pre"
proof -
  let ?wk = "snd (fetch_bands t s3 [1..k - 1] w)"
  from k have split: "[1..k] = [1..k - 1] @ [k]" by (simp add: upto_rec2)
  from ok have "\<forall>b\<in>set [1..k - 1]. band_ok t s3 w b" by auto
  with fetch_bands_ok [of "[1..k - 1]" t s3 w]
  have before: "fst (fetch_bands t s3 [1..k - 1] w) = None" by simp
  have "dest_of t k \<notin> dest_of t ` set [1..k - 1]"
    using dest_of_inj [of t k] by auto
  then have "files ?wk (dest_of t k) = files w (dest_of t k)"
    by (rule fetch_bands_files_other)
  with absent have a: "files ?wk (dest_of t k) = None" by simp
  from creatable have c: "can_create ?wk (dest_of t k)"
    by (simp add: fetch_bands_can_create)
  from before have step: "fetch_bands t s3 [1..k] w = fetch_band t s3 k ?wk"
    unfolding split by (rule fetch_bands_snoc)
  from fetch_band_raised [where ?s3.0 = s3, OF a c raised] step
  show e: "fst (fetch_bands t s3 [1..k] w) = Some e"
    and "files (snd (fetch_bands t s3 [1..k] w)) (dest_of t k) = Some part"
    by simp_all
  from fetch_bands_requests [of t s3 "[1..k - 1]" w] obtain pre where
    p: "requests ?wk = requests w @ pre"
    and sp: "set pre \<subseteq> request_of t ` {b \<in> set [1..k - 1]. files w (dest_of t b) = None}"
    by blast
  have "request_of t k \<notin> set pre"
  proof
    assume "request_of t k \<in> set pre"
    with sp obtain b where "b \<in> set [1..k - 1]" and "request_of t k = request_of t b"
      by blast
    then have "k \<in> set [1..k - 1]" by (simp only: request_of_inj [of t k b])
    then show False by simp
  qed
  moreover from a c p step
  have "requests (snd (fetch_bands t s3 [1..k] w)) = requests w @ (pre @ [request_of t k])"
    by (simp add: fetch_band_requests)
  then have "new_requests w (snd (fetch_bands t s3 [1..k] w)) = pre @ [request_of t k]"
    by (rule new_requests_append)
  ultimately show "\<exists>pre. new_requests w (snd (fetch_bands t s3 [1..k] w)) =
      pre @ [request_of t k] \<and> request_of t k \<notin> set pre"
    by blast
  from k have whole: "[1..6] = [1..k] @ [k + 1..6]" by (simp add: upto_split2)
  from e have "fst (fetch_bands t s3 [1..k] w) \<noteq> None" by simp
  then have "fetch_bands t s3 ([1..k] @ [k + 1..6]) w = fetch_bands t s3 [1..k] w"
    by (rule fetch_bands_stop)
  then show "download_files_for_date t s3 w = fetch_bands t s3 [1..k] w"
    unfolding download_files_for_date_def whole .
qed

section \<open>Properties of the Key Builder\<close>

text \<open>
  Claim C1. A timestamp strictly before 2022-10-28T00:00:00 gets satellite code \<open>H08\<close> and
  bucket \<open>noaa-himawari8\<close>, whatever the band; a timestamp at or after that instant gets
  \<open>H09\<close> and \<open>noaa-himawari9\<close>. The two cases exclude each other and cover every
  timestamp; a timestamp is before the instant exactly when its date is before
  2022-10-28.
\<close>

theorem satellite_hard_cutover:
  "(datetime_lt t cutover \<longrightarrow>
      get_object_name_dict t b ''satellite_code'' = Some ''H08'' \<and>
      get_object_name_dict t b ''bucket_name'' = Some ''noaa-himawari8'') \<and>
   (\<not> datetime_lt t cutover \<longrightarrow>
      get_object_name_dict t b ''satellite_code'' = Some ''H09'' \<and>
      get_object_name_dict t b ''bucket_name'' = Some ''noaa-himawari9'') \<and>
   (datetime_lt t cutover \<longleftrightarrow>
      year t < 2022 \<or> (year t = 2022 \<and> (month t < 10 \<or> (month t = 10 \<and> day t < 28))))"
  using before_cutover_iff [of t]
  by (simp add: dict_satellite_code dict_bucket_name cutover_def HIMAWARI_8_BUCKET_def
      HIMAWARI_9_BUCKET_def)

theorem satellite_hard_cutover_witness:
  "datetime_lt \<lparr>year = 2022, month = 10, day = 27, hour = 23, minute = 59, second = 59,
      microsecond = 999999\<rparr> cutover \<and>
   get_object_name_dict \<lparr>year = 2022, month = 10, day = 27, hour = 23, minute = 59, second = 59,
      microsecond = 999999\<rparr> 3 ''satellite_code'' = Some ''H08'' \<and>
   get_object_name_dict \<lparr>year = 2022, month = 10, day = 27, hour = 23, minute = 59, second = 59,
      microsecond = 999999\<rparr> 3 ''bucket_name'' = Some ''noaa-himawari8'' \<and>
   \<not> datetime_lt cutover cutover \<and>
   get_object_name_dict cutover 3 ''satellite_code'' = Some ''H09'' \<and>
   get_object_name_dict cutover 3 ''bucket_name'' = Some ''noaa-himawari9''"
proof -
  let ?t = "\<lparr>year = 2022, month = 10, day = 27, hour = 23, minute = 59, second = 59,
      microsecond = 999999\<rparr>"
  have before: "datetime_lt ?t cutover"
    by (simp add: before_cutover_iff)
  have after: "\<not> datetime_lt cutover cutover"
    by (simp add: datetime_lt_def)
  from before satellite_hard_cutover [of ?t 3]
  have "get_object_name_dict ?t 3 ''satellite_code'' = Some ''H08''"
    and "get_object_name_dict ?t 3 ''bucket_name'' = Some ''noaa-himawari8''"
    by blast+
  moreover from after satellite_hard_cutover [of cutover 3]
  have "get_object_name_dict cutover 3 ''satellite_code'' = Some ''H09''"
    and "get_object_name_dict cutover 3 ''bucket_name'' = Some ''noaa-himawari9''"
    by blast+
  ultimately show ?thesis using before after by (intro conjI)
qed

text \<open>
  Claim C3. For every integer band the resolution code is \<open>R10\<close> when the band is at
  most 4 and \<open>R20\<close> when it is at least 5.
\<close>

theorem resolution_by_band:
  "(b \<le> 4 \<longrightarrow> get_object_name_dict t b ''resolution'' = Some ''R10'') \<and>
   (5 \<le> b \<longrightarrow> get_object_name_dict t b ''resolution'' = Some ''R20'')"
  by (simp add: dict_resolution)

theorem resolution_by_band_witness:
  "(- 7 :: int) \<le> 4 \<and> get_object_name_dict EXAMPLE_DATE (- 7) ''resolution'' = Some ''R10'' \<and>
   (5 :: int) \<le> 1000 \<and> get_object_name_dict EXAMPLE_DATE 1000 ''resolution'' = Some ''R20''"
  using resolution_by_band [of "- 7" EXAMPLE_DATE] resolution_by_band [of 1000 EXAMPLE_DATE]
  by simp

text \<open>
  Claim C9. The satellite code is \<open>H08\<close> exactly when the bucket is \<open>noaa-himawari8\<close>,
  and \<open>H09\<close> exactly when the bucket is \<open>noaa-himawari9\<close>: the two comparisons
  against the cutover instant never disagree.
\<close>

theorem epoch_fields_agree:
  "(get_object_name_dict t b ''satellite_code'' = Some ''H08'' \<longleftrightarrow>
      get_object_name_dict t b ''bucket_name'' = Some ''noaa-himawari8'') \<and>
   (get_object_name_dict t b ''satellite_code'' = Some ''H09'' \<longleftrightarrow>
      get_object_name_dict t b ''bucket_name'' = Some ''noaa-himawari9'')"
  by (simp add: dict_satellite_code dict_bucket_name HIMAWARI_8_BUCKET_def
      HIMAWARI_9_BUCKET_def)

theorem epoch_fields_agree_witness:
  "get_object_name_dict EXAMPLE_DATE 4 ''satellite_code'' = Some ''H09'' \<and>
   get_object_name_dict EXAMPLE_DATE 4 ''bucket_name'' = Some ''noaa-himawari9'' \<and>
   get_object_name_dict EXAMPLE_DATE 4 ''satellite_code'' \<noteq> Some ''H08'' \<and>
   get_object_name_dict EXAMPLE_DATE 4 ''bucket_name'' \<noteq> Some ''noaa-himawari8''"
proof -
  have "get_object_name_dict EXAMPLE_DATE 4 ''satellite_code'' = Some ''H09''"
    by (simp add: dict_satellite_code datetime_lt_def datetime_ymd_def EXAMPLE_DATE_def)
  with epoch_fields_agree [of EXAMPLE_DATE 4] show ?thesis by simp
qed

text \<open>
  Claim C10. Two datetimes that agree on year, month, day, hour and minute give equal
  dictionaries for every band, whatever their seconds and microseconds.
\<close>

theorem minute_determines_dict:
  assumes "minute_of t1 = minute_of t2"
  shows "get_object_name_dict t1 b = get_object_name_dict t2 b"
proof -
  from assms have f: "year t1 = year t2" "month t1 = month t2" "day t1 = day t2"
    "hour t1 = hour t2" "minute t1 = minute t2"
    by (simp_all add: minute_of_def)
  then have s: "strftime t1 x = strftime t2 x" for x
    by (cases x) simp_all
  from f have l: "datetime_lt t1 (datetime_ymd 2022 10 28) =
      datetime_lt t2 (datetime_ymd 2022 10 28)"
    by (simp add: datetime_lt_def datetime_ymd_def)
  show ?thesis
    unfolding get_object_name_dict_def s l by (rule refl)
qed

theorem minute_determines_dict_witness:
  "minute_of (cutover\<lparr>second := 59, microsecond := 999999\<rparr>) = minute_of cutover \<and>
   get_object_name_dict (cutover\<lparr>second := 59, microsecond := 999999\<rparr>) 1 =
     get_object_name_dict cutover 1"
proof -
  have m: "minute_of (cutover\<lparr>second := 59, microsecond := 999999\<rparr>) = minute_of cutover"
    by (simp add: minute_of_def)
  from m minute_determines_dict [OF m, of 1] show ?thesis by simp
qed

text \<open>
  Claim C8 as stated fails: band 100 is written with three digits, so its band code has
  four characters.
\<close>

theorem band_code_three_chars_counterexample:
  "get_object_name_dict EXAMPLE_DATE 100 ''band'' = Some ''B100'' \<and>
   map_option length (get_object_name_dict EXAMPLE_DATE 100 ''band'') \<noteq> Some 3"
proof -
  have "format_0d 2 100 = ''100''" by code_simp
  then show ?thesis by (simp add: dict_band)
qed

text \<open>
  Claim C8, amended. For every integer band the band code is \<open>B\<close> followed by the band
  formatted with \<open>02d\<close>. For a band from 0 to 99 that is the tens digit and the units
  digit. The band code is three characters long exactly for the bands from \<open>-9\<close> to 99.
\<close>

theorem band_code_shape:
  "get_object_name_dict t b ''band'' = Some (''B'' @ format_0d 2 b) \<and>
   (0 \<le> b \<and> b \<le> 99 \<longrightarrow>
      format_0d 2 b = [digit_char (nat b div 10), digit_char (nat b mod 10)]) \<and>
   (map_option length (get_object_name_dict t b ''band'') = Some 3 \<longleftrightarrow> - 9 \<le> b \<and> b \<le> 99)"
  using length_format_0d_2 [of b]
  by (simp add: dict_band format_0d_small zero_padded2 digit_char_mod)

theorem band_code_shape_witness:
  "get_object_name_dict EXAMPLE_DATE 4 ''band'' = Some ''B04'' \<and>
   map_option length (get_object_name_dict EXAMPLE_DATE 4 ''band'') = Some 3"
proof -
  have "digit_char 0 = CHR ''0''" "digit_char 4 = CHR ''4''"
    by (simp_all add: digit_char_def)
  with band_code_shape [of EXAMPLE_DATE 4] show ?thesis by simp
qed





section \<open>Properties of the Fetcher\<close>

text \<open>
  Claim C5. A band from 1 to 6 whose destination file already exists is not downloaded
  and its file keeps its contents. Only destination paths of bands whose file was
  absent are written, and only such bands are requested from the client.
\<close>

theorem existing_file_skipped:
  assumes "b \<in> {1..6}" and "files w (dest_of t b) = Some c"
  shows "files (snd (download_files_for_date t s3 w)) (dest_of t b) = Some c \<and>
    request_of t b \<notin> set (new_requests w (snd (download_files_for_date t s3 w))) \<and>
    (\<forall>q. files (snd (download_files_for_date t s3 w)) q \<noteq> files w q \<longrightarrow>
       (\<exists>b'\<in>{1..6}. q = dest_of t b' \<and> files w q = None)) \<and>
    (\<forall>r\<in>set (new_requests w (snd (download_files_for_date t s3 w))).
       \<exists>b'\<in>{1..6}. r = request_of t b' \<and> files w (dest_of t b') = None)"
proof -
  have "\<exists>b'\<in>{1..6}. q = dest_of t b' \<and> files w q = None"
    if "files (snd (download_files_for_date t s3 w)) q \<noteq> files w q" for q
    using run_changes [of t s3 "[1..6]" w q] that
    by (simp add: download_files_for_date_def)
  moreover have "\<exists>b'\<in>{1..6}. r = request_of t b' \<and> files w (dest_of t b') = None"
    if "r \<in> set (new_requests w (snd (download_files_for_date t s3 w)))" for r
  proof -
    from that have "r \<in> request_of t ` {b \<in> set [1..6]. files w (dest_of t b) = None}"
      using run_new_requests [of w t s3 "[1..6]"]
      unfolding download_files_for_date_def by blast
    then obtain b' where "b' \<in> set [1..6]" "r = request_of t b'"
      "files w (dest_of t b') = None"
      by blast
    then show ?thesis by auto
  qed
  ultimately show ?thesis
    using run_skips_existing [OF assms(2), of s3 "[1..6]"]
    by (simp add: download_files_for_date_def)
qed

theorem existing_file_skipped_witness:
  "(2 :: int) \<in> {1..6} \<and>
   files (fresh_world\<lparr>files := [dest_of EXAMPLE_DATE 2 \<mapsto> ''old'']\<rparr>) (dest_of EXAMPLE_DATE 2) =
     Some ''old'' \<and>
   files (snd (download_files_for_date EXAMPLE_DATE good_client
      (fresh_world\<lparr>files := [dest_of EXAMPLE_DATE 2 \<mapsto> ''old'']\<rparr>))) (dest_of EXAMPLE_DATE 2) =
     Some ''old'' \<and>
   request_of EXAMPLE_DATE 2 \<notin> set (new_requests
      (fresh_world\<lparr>files := [dest_of EXAMPLE_DATE 2 \<mapsto> ''old'']\<rparr>)
      (snd (download_files_for_date EXAMPLE_DATE good_client
         (fresh_world\<lparr>files := [dest_of EXAMPLE_DATE 2 \<mapsto> ''old'']\<rparr>))))"
proof -
  let ?w = "fresh_world\<lparr>files := [dest_of EXAMPLE_DATE 2 \<mapsto> ''old'']\<rparr>"
  have b: "(2 :: int) \<in> {1..6}" by simp
  have f: "files ?w (dest_of EXAMPLE_DATE 2) = Some ''old''" by simp
  from existing_file_skipped [OF b f, of good_client] b f show ?thesis by blast
qed

text \<open>
  Claim C4. From a directory that holds none of the six files, with every download
  succeeding, the first call makes exactly six download attempts (bands 1 to 6 in order)
  and leaves all six files in place; a second call for the same timestamp makes none and
  changes nothing.
\<close>

theorem fetch_twice:
  assumes "\<forall>b\<in>{1..6}. files w (dest_of t b) = None"
    and "\<forall>b\<in>{1..6}. can_create w (dest_of t b)"
    and "\<forall>b\<in>{1..6}. returns (s3 (bucket_of t b) (key_of t b))"
  shows "fst (download_files_for_date t s3 w) = None \<and>
    new_requests w (snd (download_files_for_date t s3 w)) = map (request_of t) [1..6] \<and>
    length (new_requests w (snd (download_files_for_date t s3 w))) = 6 \<and>
    distinct (new_requests w (snd (download_files_for_date t s3 w))) \<and>
    (\<forall>b\<in>{1..6}. files (snd (download_files_for_date t s3 w)) (dest_of t b) \<noteq> None) \<and>
    download_files_for_date t s3' (snd (download_files_for_date t s3 w)) =
      (None, snd (download_files_for_date t s3 w)) \<and>
    new_requests (snd (download_files_for_date t s3 w))
      (snd (download_files_for_date t s3' (snd (download_files_for_date t s3 w)))) = []"
proof -
  let ?w1 = "snd (fetch_bands t s3 [1..6] w)"
  from assms have ok: "\<forall>b\<in>set [1..6]. band_ok t s3 w b"
    by (simp add: band_ok_def)
  have d: "distinct [1..6::int]" by simp
  from fetch_bands_ok [OF d ok] have r: "fst (fetch_bands t s3 [1..6] w) = None"
    and present: "\<forall>b\<in>set [1..6]. files ?w1 (dest_of t b) \<noteq> None"
    by simp_all
  from assms have "\<forall>b\<in>set [1..6]. files w (dest_of t b) = None \<and> can_create w (dest_of t b)"
    by simp
  from fetch_bands_all_requested [OF d this r]
  have "requests ?w1 = requests w @ map (request_of t) [1..6]" .
  then have n: "new_requests w ?w1 = map (request_of t) [1..6]"
    by (rule new_requests_append)
  have "inj_on (request_of t) (set [1..6])"
    by (rule inj_onI) (rule request_of_inj)
  with d have dn: "distinct (map (request_of t) [1..6])"
    by (simp only: distinct_map simp_thms)
  from present have again: "fetch_bands t s3' [1..6] ?w1 = (None, ?w1)"
    by (rule fetch_bands_skip)
  then have "new_requests ?w1 (snd (fetch_bands t s3' [1..6] ?w1)) = []"
    by (simp add: new_requests_def)
  with r n dn present again show ?thesis
    by (simp add: download_files_for_date_def)
qed

theorem fetch_twice_witness:
  "list_all (\<lambda>b. files fresh_world (dest_of EXAMPLE_DATE b) = None) [1..6] \<and>
   list_all (\<lambda>b. can_create fresh_world (dest_of EXAMPLE_DATE b)) [1..6] \<and>
   list_all (\<lambda>b. returns (good_client (bucket_of EXAMPLE_DATE b) (key_of EXAMPLE_DATE b)))
     [1..6] \<and>
   fst (download_files_for_date EXAMPLE_DATE good_client fresh_world) = None \<and>
   length (new_requests fresh_world
     (snd (download_files_for_date EXAMPLE_DATE good_client fresh_world))) = 6 \<and>
   download_files_for_date EXAMPLE_DATE good_client
     (snd (download_files_for_date EXAMPLE_DATE good_client fresh_world)) =
     (None, snd (download_files_for_date EXAMPLE_DATE good_client fresh_world))"
proof -
  have a: "\<forall>b\<in>{1..6}. files fresh_world (dest_of EXAMPLE_DATE b) = None"
    by (simp add: fresh_world_def)
  have b: "\<forall>b\<in>{1..6}. can_create fresh_world (dest_of EXAMPLE_DATE b)"
    by (simp add: fresh_world_def)
  have c: "\<forall>b\<in>{1..6}. returns (good_client (bucket_of EXAMPLE_DATE b) (key_of EXAMPLE_DATE b))"
    by (simp add: good_client_def)
  note run = fetch_twice [OF a b c, of good_client]
  from run have "fst (download_files_for_date EXAMPLE_DATE good_client fresh_world) = None"
    and "length (new_requests fresh_world
      (snd (download_files_for_date EXAMPLE_DATE good_client fresh_world))) = 6"
    and "download_files_for_date EXAMPLE_DATE good_client
      (snd (download_files_for_date EXAMPLE_DATE good_client fresh_world)) =
      (None, snd (download_files_for_date EXAMPLE_DATE good_client fresh_world))"
    by blast+
  moreover from a b c
  have "list_all (\<lambda>b. files fresh_world (dest_of EXAMPLE_DATE b) = None) [1..6]"
    and "list_all (\<lambda>b. can_create fresh_world (dest_of EXAMPLE_DATE b)) [1..6]"
    and "list_all (\<lambda>b. returns (good_client (bucket_of EXAMPLE_DATE b) (key_of EXAMPLE_DATE b)))
      [1..6]"
    by (simp_all only: list_all_iff set_upto)
  ultimately show ?thesis by (intro conjI)
qed

text \<open>
  Claim C7. When the download of a band raises, the call ends with that exception, no
  later band is requested or written, and the file of the failed band stays with whatever
  was written to it; a later call for the same timestamp, with any client, does not
  request that band and leaves that file as it is.
\<close>

theorem failed_download_propagates:
  assumes "k \<in> {1..6}"
    and "\<forall>b\<in>{1..<k}. band_ok t s3 w b"
    and "files w (dest_of t k) = None"
    and "can_create w (dest_of t k)"
    and "s3 (bucket_of t k) (key_of t k) = Raised e part"
  shows "fst (download_files_for_date t s3 w) = Some e \<and>
    files (snd (download_files_for_date t s3 w)) (dest_of t k) = Some part \<and>
    (\<exists>pre. new_requests w (snd (download_files_for_date t s3 w)) = pre @ [request_of t k] \<and>
       request_of t k \<notin> set pre) \<and>
    (\<forall>b\<in>{k<..6}.
       request_of t b \<notin> set (new_requests w (snd (download_files_for_date t s3 w))) \<and>
       files (snd (download_files_for_date t s3 w)) (dest_of t b) = files w (dest_of t b)) \<and>
    request_of t k \<notin> set (new_requests (snd (download_files_for_date t s3 w))
       (snd (download_files_for_date t s3' (snd (download_files_for_date t s3 w))))) \<and>
    files (snd (download_files_for_date t s3' (snd (download_files_for_date t s3 w))))
       (dest_of t k) = Some part"
proof -
  note run = run_until_failure [OF assms]
  let ?w1 = "snd (fetch_bands t s3 [1..k] w)"
  have later: "request_of t b \<notin> set (new_requests w ?w1) \<and>
      files ?w1 (dest_of t b) = files w (dest_of t b)" if "b \<in> {k<..6}" for b
  proof
    show "request_of t b \<notin> set (new_requests w ?w1)"
    proof
      assume "request_of t b \<in> set (new_requests w ?w1)"
      with run_new_requests [of w t s3 "[1..k]"] obtain b' where
        "b' \<in> set [1..k]" and "request_of t b = request_of t b'"
        by blast
      then have "b \<in> set [1..k]" by (simp only: request_of_inj [of t b b'])
      with that show False by simp
    qed
    from that have "dest_of t b \<notin> dest_of t ` set [1..k]"
      using dest_of_inj [of t b] by auto
    then show "files ?w1 (dest_of t b) = files w (dest_of t b)"
      by (rule fetch_bands_files_other)
  qed
  from run(3) have again:
    "files (snd (fetch_bands t s3' [1..6] ?w1)) (dest_of t k) = Some part"
    "request_of t k \<notin> set (new_requests ?w1 (snd (fetch_bands t s3' [1..6] ?w1)))"
    by (rule run_skips_existing)+
  from run(2,3,4) later again show ?thesis
    unfolding run(1) download_files_for_date_def [of t s3'] by blast
qed

theorem failed_download_propagates_witness:
  "(3 :: int) \<in> {1..6} \<and>
   band_ok EXAMPLE_DATE flaky_client fresh_world 1 \<and>
   band_ok EXAMPLE_DATE flaky_client fresh_world 2 \<and>
   files fresh_world (dest_of EXAMPLE_DATE 3) = None \<and>
   can_create fresh_world (dest_of EXAMPLE_DATE 3) \<and>
   flaky_client (bucket_of EXAMPLE_DATE 3) (key_of EXAMPLE_DATE 3) =
     Raised (ClientError ''connection reset'') ''BZ'' \<and>
   fst (download_files_for_date EXAMPLE_DATE flaky_client fresh_world) =
     Some (ClientError ''connection reset'') \<and>
   files (snd (download_files_for_date EXAMPLE_DATE flaky_client fresh_world))
     (dest_of EXAMPLE_DATE 3) = Some ''BZ'' \<and>
   files (snd (download_files_for_date EXAMPLE_DATE flaky_client fresh_world))
     (dest_of EXAMPLE_DATE 4) = None \<and>
   files (snd (download_files_for_date EXAMPLE_DATE good_client
      (snd (download_files_for_date EXAMPLE_DATE flaky_client fresh_world))))
     (dest_of EXAMPLE_DATE 3) = Some ''BZ''"
proof -
  have k: "(3 :: int) \<in> {1..6}" by simp
  have ok: "\<forall>b\<in>{1..<3}. band_ok EXAMPLE_DATE flaky_client fresh_world b"
  proof
    fix b :: int
    assume "b \<in> {1..<3}"
    then have "b \<noteq> 3" by simp
    then have "key_of EXAMPLE_DATE b \<noteq> key_of EXAMPLE_DATE 3"
      using key_of_inj [of EXAMPLE_DATE b 3] by blast
    then show "band_ok EXAMPLE_DATE flaky_client fresh_world b"
      by (simp add: band_ok_def flaky_client_def fresh_world_def)
  qed
  have a: "files fresh_world (dest_of EXAMPLE_DATE 3) = None"
    by (simp add: fresh_world_def)
  have c: "can_create fresh_world (dest_of EXAMPLE_DATE 3)"
    by (simp add: fresh_world_def)
  have r: "flaky_client (bucket_of EXAMPLE_DATE 3) (key_of EXAMPLE_DATE 3) =
      Raised (ClientError ''connection reset'') ''BZ''"
    by (simp add: flaky_client_def)
  have four: "(4 :: int) \<in> {3<..6}" by simp
  from failed_download_propagates [OF k ok a c r, of good_client] four a
  have "fst (download_files_for_date EXAMPLE_DATE flaky_client fresh_world) =
     Some (ClientError ''connection reset'')"
    and "files (snd (download_files_for_date EXAMPLE_DATE flaky_client fresh_world))
     (dest_of EXAMPLE_DATE 3) = Some ''BZ''"
    and "files (snd (download_files_for_date EXAMPLE_DATE flaky_client fresh_world))
     (dest_of EXAMPLE_DATE 4) = files fresh_world (dest_of EXAMPLE_DATE 4)"
    and "files (snd (download_files_for_date EXAMPLE_DATE good_client
      (snd (download_files_for_date EXAMPLE_DATE flaky_client fresh_world))))
     (dest_of EXAMPLE_DATE 3) = Some ''BZ''"
    by blast+
  moreover have "files fresh_world (dest_of EXAMPLE_DATE 4) = None"
    by (simp add: fresh_world_def)
  moreover from ok have "band_ok EXAMPLE_DATE flaky_client fresh_world 1"
    and "band_ok EXAMPLE_DATE flaky_client fresh_world 2"
    by simp_all
  ultimately show ?thesis using k a c r by simp
qed

end
